theory Spec2Isabelle
  imports Main "HOL-Library.Word"
begin

section \<open>Memory model\<close>

text \<open>
  The program is the single function of \<^verbatim>\<open>pkg/security/ebpf/c/container.h\<close>:

  \<^verbatim>\<open>static void copy_container_id(const char src[CONTAINER_ID_LEN], char dst[CONTAINER_ID_LEN]) {
      __builtin_memmove(dst, src, CONTAINER_ID_LEN);
  }\<close>

  It works on raw memory through two pointers that may alias, so memory is an explicit
  store from byte addresses to bytes. A \<^verbatim>\<open>char\<close> is an 8-bit word. An address is a
  natural number: a C object never wraps around the end of the address space, so pointer
  arithmetic inside a buffer is plain addition. Array parameters decay to pointers, so
  \<^verbatim>\<open>src\<close> and \<^verbatim>\<open>dst\<close> are addresses.
\<close>

type_synonym byte = "8 word"
type_synonym addr = nat
type_synonym mem = "addr \<Rightarrow> byte"

text \<open>Reading \<open>n\<close> consecutive bytes starting at address \<open>p\<close>, lowest address first.\<close>

primrec load :: "mem \<Rightarrow> addr \<Rightarrow> nat \<Rightarrow> byte list" where
  "load m p 0 = []"
| "load m p (Suc n) = m p # load m (Suc p) n"

text \<open>Writing a sequence of bytes to consecutive addresses starting at \<open>p\<close>.\<close>

primrec store :: "mem \<Rightarrow> addr \<Rightarrow> byte list \<Rightarrow> mem" where
  "store m p [] = m"
| "store m p (b # bs) = store (m(p := b)) (Suc p) bs"

text \<open>
  \<^verbatim>\<open>__builtin_memmove(dst, src, n)\<close> is the compiler's \<^verbatim>\<open>memmove\<close>: the \<open>n\<close> bytes at
  \<open>src\<close> are first read into a temporary array that overlaps neither region, and the
  temporary array is then written to \<open>dst\<close>. Its returned pointer is discarded by the
  caller, so the model returns the memory only.
\<close>

definition builtin_memmove :: "mem \<Rightarrow> addr \<Rightarrow> addr \<Rightarrow> nat \<Rightarrow> mem" where
  "builtin_memmove m dst src n = (let tmp = load m src n in store m dst tmp)"

text \<open>
  The macro \<^verbatim>\<open>CONTAINER_ID_LEN\<close> is defined outside the header; it is a parameter of
  the model, so every result holds for each value the macro may have. The function is
  \<^verbatim>\<open>void\<close>: its only effect is the new memory.
\<close>

definition copy_container_id :: "nat \<Rightarrow> mem \<Rightarrow> addr \<Rightarrow> addr \<Rightarrow> mem" where
  "copy_container_id CONTAINER_ID_LEN m src dst = builtin_memmove m dst src CONTAINER_ID_LEN"

subsection \<open>Regions\<close>

text \<open>Address \<open>a\<close> lies in the window of \<open>n\<close> bytes starting at \<open>p\<close>.\<close>

definition in_window :: "addr \<Rightarrow> nat \<Rightarrow> addr \<Rightarrow> bool" where
  "in_window p n a = (p \<le> a \<and> a < p + n)"

text \<open>Two windows of the same width \<open>n\<close> share no address.\<close>

definition regions_disjoint :: "addr \<Rightarrow> addr \<Rightarrow> nat \<Rightarrow> bool" where
  "regions_disjoint p q n = (p + n \<le> q \<or> q + n \<le> p)"

text \<open>Two windows of the same width \<open>n\<close> share at least one address.\<close>

definition regions_overlap :: "addr \<Rightarrow> addr \<Rightarrow> nat \<Rightarrow> bool" where
  "regions_overlap p q n = (p < q + n \<and> q < p + n)"

section \<open>Reading and writing windows\<close>

lemma length_load: "length (load m p n) = n"
  by (induction n arbitrary: p) simp_all

lemma nth_load: "i < n \<Longrightarrow> load m p n ! i = m (p + i)"
proof (induction n arbitrary: p i)
  case 0
  then show ?case by simp
next
  case (Suc n)
  show ?case
  proof (cases i)
    case 0
    then show ?thesis by simp
  next
    case (Suc j)
    with Suc.prems have "j < n" by simp
    from Suc.IH [OF this, of "Suc p"] Suc show ?thesis by simp
  qed
qed

lemma load_eq_iff:
  "load m p n = load m' q n \<longleftrightarrow> (\<forall>i<n. m (p + i) = m' (q + i))"
  by (simp add: list_eq_iff_nth_eq length_load nth_load)

lemma store_outside: "a < p \<or> p + length bs \<le> a \<Longrightarrow> store m p bs a = m a"
proof (induction bs arbitrary: m p)
  case Nil
  then show ?case by simp
next
  case (Cons b bs)
  then have out: "a < Suc p \<or> Suc p + length bs \<le> a" and ne: "a \<noteq> p" by auto
  have "store m p (b # bs) a = store (m(p := b)) (Suc p) bs a" by simp
  also have "\<dots> = (m(p := b)) a" using out by (rule Cons.IH)
  also have "\<dots> = m a" using ne by simp
  finally show ?case .
qed

lemma store_inside: "i < length bs \<Longrightarrow> store m p bs (p + i) = bs ! i"
proof (induction bs arbitrary: m p i)
  case Nil
  then show ?case by simp
next
  case (Cons b bs)
  show ?case
  proof (cases i)
    case 0
    have "store (m(p := b)) (Suc p) bs p = (m(p := b)) p"
      by (rule store_outside) simp
    with 0 show ?thesis by simp
  next
    case (Suc j)
    with Cons.prems have j: "j < length bs" by simp
    have "store m p (b # bs) (p + i) = store (m(p := b)) (Suc p) bs (Suc p + j)"
      using Suc by simp
    also have "\<dots> = bs ! j" using j by (rule Cons.IH)
    finally show ?thesis using Suc by simp
  qed
qed

lemma builtin_memmove_outside:
  "a < dst \<or> dst + n \<le> a \<Longrightarrow> builtin_memmove m dst src n a = m a"
  by (simp add: builtin_memmove_def Let_def store_outside length_load)

lemma builtin_memmove_inside:
  "i < n \<Longrightarrow> builtin_memmove m dst src n (dst + i) = m (src + i)"
  by (simp add: builtin_memmove_def Let_def store_inside length_load nth_load)

lemma copy_container_id_outside:
  "\<not> in_window dst n a \<Longrightarrow> copy_container_id n m src dst a = m a"
  unfolding copy_container_id_def in_window_def
  by (rule builtin_memmove_outside) linarith

lemma copy_container_id_inside:
  "i < n \<Longrightarrow> copy_container_id n m src dst (dst + i) = m (src + i)"
  unfolding copy_container_id_def by (rule builtin_memmove_inside)

lemma in_window_iff: "in_window p n a \<longleftrightarrow> (\<exists>i<n. a = p + i)"
proof
  assume "in_window p n a"
  then have "a - p < n" and "a = p + (a - p)" by (simp_all add: in_window_def) linarith
  then show "\<exists>i<n. a = p + i" by blast
next
  assume "\<exists>i<n. a = p + i"
  then show "in_window p n a" by (auto simp: in_window_def)
qed

lemma load_copy_dst: "load (copy_container_id n m src dst) dst n = load m src n"
  by (simp add: load_eq_iff copy_container_id_inside)

lemma load_copy_copy:
  "load (copy_container_id n (copy_container_id n m a b) b c) c n = load m a n"
  by (simp add: load_copy_dst)

lemma disjoint_not_in_window:
  "regions_disjoint p q n \<Longrightarrow> i < n \<Longrightarrow> \<not> in_window q n (p + i)"
  by (auto simp: regions_disjoint_def in_window_def)

lemma regions_disjoint_sym: "regions_disjoint p q n \<Longrightarrow> regions_disjoint q p n"
  by (auto simp: regions_disjoint_def)

text \<open>
  On overlapping windows a second call moves bytes again: the disjointness asked for by
  the idempotence result below cannot be dropped.
\<close>

lemma copy_container_id_twice_overlap:
  "copy_container_id 2 (copy_container_id 2 (\<lambda>a. of_nat a) 0 1) 0 1 2 = 0"
  "copy_container_id 2 (\<lambda>a. of_nat a) 0 1 2 = 1"
  by (simp_all add: copy_container_id_def builtin_memmove_def eval_nat_numeral)

section \<open>The copy\<close>

text \<open>
  C1. For every source buffer of \<^verbatim>\<open>CONTAINER_ID_LEN\<close> bytes and every destination
  buffer of the same width, wherever the two lie, after \<^verbatim>\<open>copy_container_id(src, dst)\<close>
  the destination holds, byte for byte, the bytes the source held before the call: all
  \<^verbatim>\<open>CONTAINER_ID_LEN\<close> bytes are overwritten, none is left from a partial copy.
\<close>

theorem copy_container_id_copies:
  "load (copy_container_id n m src dst) dst n = load m src n"
  by (rule load_copy_dst)

theorem copy_container_id_copies_witness:
  "load (copy_container_id 4 (\<lambda>a. of_nat a) 0 8) 8 4 = [0, 1, 2, 3]"
proof -
  have "load (\<lambda>a. of_nat a) 0 4 = [0, 1, 2, 3 :: byte]"
    by (simp add: eval_nat_numeral)
  with copy_container_id_copies [of 4 "\<lambda>a. of_nat a" 0 8] show ?thesis
    by (rule trans)
qed

text \<open>
  C2. When the source and the destination window overlap, at whatever offset (the
  destination above the source, below it, or the very same window), the destination
  still ends up holding the bytes the source window held immediately before the call.
\<close>

theorem copy_container_id_overlap_safe:
  "regions_overlap src dst n \<Longrightarrow>
     load (copy_container_id n m src dst) dst n = load m src n"
  by (rule load_copy_dst)

theorem copy_container_id_overlap_safe_witness:
  "regions_overlap 0 2 4 \<and>
   load (copy_container_id 4 (\<lambda>a. of_nat a) 0 2) 2 4 = [0, 1, 2, 3] \<and>
   regions_overlap 2 0 4 \<and>
   load (copy_container_id 4 (\<lambda>a. of_nat a) 2 0) 0 4 = [2, 3, 4, 5] \<and>
   regions_overlap 1 1 4 \<and>
   load (copy_container_id 4 (\<lambda>a. of_nat a) 1 1) 1 4 = [1, 2, 3, 4]"
proof -
  have f: "regions_overlap 0 2 4" and b: "regions_overlap 2 0 4" and s: "regions_overlap 1 1 4"
    by (simp_all add: regions_overlap_def)
  have l0: "load (\<lambda>a. of_nat a) 0 4 = [0, 1, 2, 3]"
    and l2: "load (\<lambda>a. of_nat a) 2 4 = [2, 3, 4, 5]"
    and l1: "load (\<lambda>a. of_nat a) 1 4 = [1, 2, 3, 4]"
    by (simp_all add: eval_nat_numeral)
  show ?thesis
    using copy_container_id_overlap_safe [OF f, of "\<lambda>a. of_nat a"]
      copy_container_id_overlap_safe [OF b, of "\<lambda>a. of_nat a"]
      copy_container_id_overlap_safe [OF s, of "\<lambda>a. of_nat a"]
      f b s l0 l1 l2
    by simp
qed

section \<open>Frame\<close>

text \<open>
  C3. The call writes only the \<^verbatim>\<open>CONTAINER_ID_LEN\<close> bytes of the destination window:
  every address outside \<^verbatim>\<open>dst[0..CONTAINER_ID_LEN)\<close> holds after the call what it held
  before, and when the two windows are disjoint the whole source buffer is unchanged.
  Memory is the only state there is, and the call returns nothing, so this is also the
  absence of any other effect: nothing is allocated, nothing else is written.
\<close>

theorem copy_container_id_frame:
  "(\<not> in_window dst n a \<longrightarrow> copy_container_id n m src dst a = m a) \<and>
   (regions_disjoint src dst n \<longrightarrow>
      load (copy_container_id n m src dst) src n = load m src n)"
proof (intro conjI impI)
  assume "\<not> in_window dst n a"
  then show "copy_container_id n m src dst a = m a" by (rule copy_container_id_outside)
next
  assume d: "regions_disjoint src dst n"
  have "copy_container_id n m src dst (src + i) = m (src + i)" if "i < n" for i
    using disjoint_not_in_window [OF d that] by (rule copy_container_id_outside)
  then show "load (copy_container_id n m src dst) src n = load m src n"
    by (simp add: load_eq_iff)
qed

theorem copy_container_id_frame_witness:
  "\<not> in_window 8 4 3 \<and> copy_container_id 4 (\<lambda>a. of_nat a) 0 8 3 = 3 \<and>
   \<not> in_window 8 4 12 \<and> copy_container_id 4 (\<lambda>a. of_nat a) 0 8 12 = 12 \<and>
   regions_disjoint 0 8 4 \<and>
   load (copy_container_id 4 (\<lambda>a. of_nat a) 0 8) 0 4 = [0, 1, 2, 3]"
proof -
  have l: "load (\<lambda>a. of_nat a) 0 4 = [0, 1, 2, 3]"
    by (simp add: eval_nat_numeral)
  show ?thesis
    using copy_container_id_frame [of 8 4 3 "\<lambda>a. of_nat a" 0]
      copy_container_id_frame [of 8 4 12 "\<lambda>a. of_nat a" 0] l
    by (simp add: in_window_def regions_disjoint_def)
qed

text \<open>
  C4. The destination's contents after the call depend only on the
  \<^verbatim>\<open>CONTAINER_ID_LEN\<close> bytes of the source window: two memories that agree on
  \<^verbatim>\<open>src[0..CONTAINER_ID_LEN)\<close>, whatever they hold elsewhere, give the same destination
  contents. Nothing past the fixed width is read into the result.
\<close>

theorem copy_container_id_noninterference:
  "load m1 src n = load m2 src n \<Longrightarrow>
     load (copy_container_id n m1 src dst) dst n = load (copy_container_id n m2 src dst) dst n"
  by (simp add: load_copy_dst)

theorem copy_container_id_noninterference_witness:
  "load (\<lambda>a. of_nat a) 0 4 = load (\<lambda>a. if a < 4 then of_nat a else 0) 0 4 \<and>
   load (copy_container_id 4 (\<lambda>a. of_nat a) 0 8) 8 4 =
   load (copy_container_id 4 (\<lambda>a. if a < 4 then of_nat a else 0) 0 8) 8 4"
proof -
  have h: "load (\<lambda>a. of_nat a) 0 4 = load (\<lambda>a. if a < 4 then of_nat a else 0) 0 4"
    by (simp add: eval_nat_numeral)
  from copy_container_id_noninterference [OF h, of 8] h show ?thesis by simp
qed

text \<open>
  C5. For disjoint windows the copy is independent storage: let the memory change after
  the call in any way that touches only the source window (\<open>m'\<close> is any memory equal to
  the memory after the call at every address outside \<^verbatim>\<open>src[0..CONTAINER_ID_LEN)\<close>).
  The \<^verbatim>\<open>CONTAINER_ID_LEN\<close> bytes of the destination are then still what the call left
  there, and that is the identifier the source held before the call, whatever the source
  buffer holds now. In the example after the theorem the whole source buffer is
  overwritten once the copy is made, and the destination still reads as the original
  identifier.
\<close>

theorem copy_container_id_independent:
  "regions_disjoint src dst n \<Longrightarrow>
   (\<forall>a. \<not> in_window src n a \<longrightarrow> m' a = copy_container_id n m src dst a) \<Longrightarrow>
   load m' dst n = load (copy_container_id n m src dst) dst n \<and>
   load m' dst n = load m src n"
proof -
  assume d: "regions_disjoint src dst n"
    and same: "\<forall>a. \<not> in_window src n a \<longrightarrow> m' a = copy_container_id n m src dst a"
  have "m' (dst + i) = copy_container_id n m src dst (dst + i)" if "i < n" for i
  proof -
    from d have "regions_disjoint dst src n" by (rule regions_disjoint_sym)
    then have "\<not> in_window src n (dst + i)" using that by (rule disjoint_not_in_window)
    with same show ?thesis by blast
  qed
  then have kept: "load m' dst n = load (copy_container_id n m src dst) dst n"
    by (simp add: load_eq_iff)
  also have "\<dots> = load m src n" by (rule load_copy_dst)
  finally have orig: "load m' dst n = load m src n" .
  from kept orig show ?thesis by (rule conjI)
qed

theorem copy_container_id_independent_witness:
  "regions_disjoint 0 8 4 \<and>
   load (store (copy_container_id 4 (\<lambda>a. of_nat a) 0 8) 0 [255, 254, 253, 252]) 0 4 =
     [255, 254, 253, 252] \<and>
   load (store (copy_container_id 4 (\<lambda>a. of_nat a) 0 8) 0 [255, 254, 253, 252]) 8 4 =
     load (copy_container_id 4 (\<lambda>a. of_nat a) 0 8) 8 4 \<and>
   load (store (copy_container_id 4 (\<lambda>a. of_nat a) 0 8) 0 [255, 254, 253, 252]) 8 4 =
     [0, 1, 2, 3]"
proof -
  let ?post = "copy_container_id 4 (\<lambda>a. of_nat a) 0 8"
  let ?m' = "store ?post 0 [255, 254, 253, 252]"
  have d: "regions_disjoint 0 8 4" by (simp add: regions_disjoint_def)
  have same: "\<forall>a. \<not> in_window 0 4 a \<longrightarrow> ?m' a = ?post a"
    by (simp add: in_window_def)
  have src: "load ?m' 0 4 = [255, 254, 253, 252]"
    by (simp add: eval_nat_numeral)
  have pre: "load (\<lambda>a. of_nat a) 0 4 = [0, 1, 2, 3 :: byte]"
    by (simp add: eval_nat_numeral)
  note both = copy_container_id_independent [OF d same]
  from both have kept: "load ?m' 8 4 = load ?post 8 4" by (rule conjunct1)
  from both have "load ?m' 8 4 = load (\<lambda>a. of_nat a) 0 4" by (rule conjunct2)
  then have orig: "load ?m' 8 4 = [0, 1, 2, 3]" using pre by (rule trans)
  from d src kept orig show ?thesis by (intro conjI)
qed

section \<open>Algebra of the copy\<close>

text \<open>
  C7. Copying a window onto itself is the identity: with the destination pointer equal to
  the source pointer, the memory after the call is the memory before it, at every
  address, the shared window included.
\<close>

theorem copy_container_id_self:
  "copy_container_id n m p p = m"
proof
  fix a
  show "copy_container_id n m p p a = m a"
  proof (cases "in_window p n a")
    case True
    then obtain i where "i < n" and "a = p + i" by (auto simp: in_window_iff)
    then show ?thesis by (simp add: copy_container_id_inside)
  next
    case False
    then show ?thesis by (rule copy_container_id_outside)
  qed
qed

theorem copy_container_id_self_witness:
  "load (copy_container_id 4 (\<lambda>a. of_nat a) 3 3) 0 8 = [0, 1, 2, 3, 4, 5, 6, 7]"
proof -
  have "load (\<lambda>a. of_nat a) 0 8 = [0, 1, 2, 3, 4, 5, 6, 7 :: byte]"
    by (simp add: eval_nat_numeral)
  with copy_container_id_self [of 4 "\<lambda>a. of_nat a" 3] show ?thesis by simp
qed

text \<open>
  C8. On disjoint windows the copy is idempotent: calling
  \<^verbatim>\<open>copy_container_id(src, dst)\<close> twice in a row gives exactly the memory that calling it
  once gives.
\<close>

theorem copy_container_id_idempotent:
  "regions_disjoint src dst n \<Longrightarrow>
   copy_container_id n (copy_container_id n m src dst) src dst = copy_container_id n m src dst"
proof
  fix a
  assume d: "regions_disjoint src dst n"
  let ?m1 = "copy_container_id n m src dst"
  show "copy_container_id n ?m1 src dst a = ?m1 a"
  proof (cases "in_window dst n a")
    case True
    then obtain i where i: "i < n" and a: "a = dst + i" by (auto simp: in_window_iff)
    from d i have "\<not> in_window dst n (src + i)" by (rule disjoint_not_in_window)
    then have "?m1 (src + i) = m (src + i)" by (rule copy_container_id_outside)
    with i a show ?thesis by (simp add: copy_container_id_inside)
  next
    case False
    then show ?thesis by (rule copy_container_id_outside)
  qed
qed

theorem copy_container_id_idempotent_witness:
  "regions_disjoint 0 8 4 \<and>
   copy_container_id 4 (copy_container_id 4 (\<lambda>a. of_nat a) 0 8) 0 8 =
   copy_container_id 4 (\<lambda>a. of_nat a) 0 8"
proof -
  have d: "regions_disjoint 0 8 4" by (simp add: regions_disjoint_def)
  from copy_container_id_idempotent [OF d] d show ?thesis by simp
qed

text \<open>
  C9. Copying composes through an intermediate buffer: for pairwise disjoint buffers
  \<open>a\<close>, \<open>b\<close>, \<open>c\<close> of \<^verbatim>\<open>CONTAINER_ID_LEN\<close> bytes, \<^verbatim>\<open>copy_container_id(a, b)\<close> followed by
  \<^verbatim>\<open>copy_container_id(b, c)\<close> leaves in \<open>c\<close> the bytes \<open>a\<close> held before the first call.
\<close>

theorem copy_container_id_compose:
  "regions_disjoint a b n \<Longrightarrow> regions_disjoint b c n \<Longrightarrow> regions_disjoint a c n \<Longrightarrow>
   load (copy_container_id n (copy_container_id n m a b) b c) c n = load m a n"
  by (rule load_copy_copy)

theorem copy_container_id_compose_witness:
  "regions_disjoint 0 8 4 \<and> regions_disjoint 8 16 4 \<and> regions_disjoint 0 16 4 \<and>
   load (copy_container_id 4 (copy_container_id 4 (\<lambda>a. of_nat a) 0 8) 8 16) 16 4 =
     [0, 1, 2, 3]"
proof -
  have ab: "regions_disjoint 0 8 4" and bc: "regions_disjoint 8 16 4"
    and ac: "regions_disjoint 0 16 4"
    by (simp_all add: regions_disjoint_def)
  have l: "load (\<lambda>a. of_nat a) 0 4 = [0, 1, 2, 3]"
    by (simp add: eval_nat_numeral)
  from copy_container_id_compose [OF ab bc ac, of "\<lambda>a. of_nat a"] ab bc ac l
  show ?thesis by simp
qed

end
